theory Spec2Isabelle
  imports Complex_Main "HOL-Library.Sublist"
begin

section \<open>Browser storage, session store and effects\<close>

text \<open>
  The authentication front-end keeps its state in two places: the browser's
  \<^verbatim>\<open>localStorage\<close> (a string-keyed dictionary of strings, where
  \<^verbatim>\<open>getItem\<close> answers \<^verbatim>\<open>null\<close> for a missing key) and the
  \<^verbatim>\<open>BehaviorSubject\<close> of \<^verbatim>\<open>AuthService\<close>, which holds the
  last user pushed into it (\<^verbatim>\<open>null\<close> initially). Everything else the code
  does is an effect on the outside world: an HTTP request, a router navigation, a
  value pushed to the observers of \<^verbatim>\<open>user$\<close>. Each effect is appended to
  a trace, in program order, so that statements about what was (not) issued and in
  which order can be made.

  An HTTP call of \<^verbatim>\<open>HttpClient\<close> is modelled by its outcome, which is an
  argument of the operation: \<open>Inr\<close> the body of a successful response,
  \<open>Inl\<close> the error response. The operation is the subscribed observable run to
  completion; interleavings of several requests in flight are not modelled.
\<close>

type_synonym user = string

datatype event =
    StorageSet string string
  | StorageRemove string
  | HttpPost string "(string \<times> string) list"
  | HttpGet string
  | Emit "user option"
  | Navigate "string list"

record app_state =
  localStorage :: "string \<rightharpoonup> string"
  userSubject :: "user option"
  trace :: "event list"

text \<open>The payload of \<^verbatim>\<open>HttpErrorResponse\<close> read by the code: \<^verbatim>\<open>error.error?.message\<close>.\<close>

datatype http_error = HttpErrorResponse "string option"

record auth_response =
  token :: string
  user :: user

definition getItem :: "app_state \<Rightarrow> string \<Rightarrow> string option" where
  "getItem s k = localStorage s k"

definition setItem :: "string \<Rightarrow> string \<Rightarrow> app_state \<Rightarrow> app_state" where
  "setItem k v s =
     s\<lparr>localStorage := (localStorage s)(k \<mapsto> v), trace := trace s @ [StorageSet k v]\<rparr>"

definition removeItem :: "string \<Rightarrow> app_state \<Rightarrow> app_state" where
  "removeItem k s =
     s\<lparr>localStorage := (localStorage s)(k := None), trace := trace s @ [StorageRemove k]\<rparr>"

text \<open>\<^verbatim>\<open>userSubject.next(v)\<close>: the value is stored and pushed to the observers.\<close>

definition userSubject_next :: "user option \<Rightarrow> app_state \<Rightarrow> app_state" where
  "userSubject_next v s = s\<lparr>userSubject := v, trace := trace s @ [Emit v]\<rparr>"

definition router_navigate :: "string list \<Rightarrow> app_state \<Rightarrow> app_state" where
  "router_navigate commands s = s\<lparr>trace := trace s @ [Navigate commands]\<rparr>"

definition http_post :: "string \<Rightarrow> (string \<times> string) list \<Rightarrow> app_state \<Rightarrow> app_state" where
  "http_post url body s = s\<lparr>trace := trace s @ [HttpPost url body]\<rparr>"

definition http_get :: "string \<Rightarrow> app_state \<Rightarrow> app_state" where
  "http_get url s = s\<lparr>trace := trace s @ [HttpGet url]\<rparr>"

text \<open>
  JavaScript truthiness of a value that is a string, \<^verbatim>\<open>null\<close> or
  \<^verbatim>\<open>undefined\<close>: only a non-empty string is truthy.
\<close>

fun truthy :: "string option \<Rightarrow> bool" where
  "truthy None = False"
| "truthy (Some v) = (v \<noteq> [])"

section \<open>AuthService\<close>

definition apiUrl :: string where
  "apiUrl = ''http://localhost:3000/api''"

definition tokenKey :: string where
  "tokenKey = ''auth_token''"

definition getToken :: "app_state \<Rightarrow> string option" where
  "getToken s = getItem s tokenKey"

definition setToken :: "string \<Rightarrow> app_state \<Rightarrow> app_state" where
  "setToken t s = setItem tokenKey t s"

definition isAuthenticated :: "app_state \<Rightarrow> bool" where
  "isAuthenticated s = truthy (getToken s)"

text \<open>
  \<^verbatim>\<open>login\<close>: the POST is issued; the \<^verbatim>\<open>tap\<close> callback runs on a
  successful response only, storing the token and then pushing the user.
\<close>

definition login :: "string \<Rightarrow> string \<Rightarrow> http_error + auth_response \<Rightarrow> app_state \<Rightarrow> app_state" where
  "login email password outcome s =
     (let s1 = http_post (apiUrl @ ''/auth/login'') [(''email'', email), (''password'', password)] s
      in case outcome of
           Inr response \<Rightarrow> userSubject_next (Some (user response)) (setToken (token response) s1)
         | Inl err \<Rightarrow> s1)"

text \<open>\<^verbatim>\<open>register\<close> returns the bare POST: no callback is attached.\<close>

definition register :: "(string \<times> string) list \<Rightarrow> http_error + 'a \<Rightarrow> app_state \<Rightarrow> app_state" where
  "register userData outcome s = http_post (apiUrl @ ''/auth/register'') userData s"

definition loginWithLinkedIn :: "string \<Rightarrow> http_error + auth_response \<Rightarrow> app_state \<Rightarrow> app_state" where
  "loginWithLinkedIn code outcome s =
     (let s1 = http_post (apiUrl @ ''/auth/linkedin'') [(''code'', code)] s
      in case outcome of
           Inr response \<Rightarrow> userSubject_next (Some (user response)) (setToken (token response) s1)
         | Inl err \<Rightarrow> s1)"

definition getUserProfile :: "http_error + user \<Rightarrow> app_state \<Rightarrow> app_state" where
  "getUserProfile outcome s =
     (let s1 = http_get (apiUrl @ ''/users/me'') s
      in case outcome of
           Inr u \<Rightarrow> userSubject_next (Some u) s1
         | Inl err \<Rightarrow> s1)"

definition logout :: "app_state \<Rightarrow> app_state" where
  "logout s = router_navigate [''/login''] (userSubject_next None (removeItem tokenKey s))"

text \<open>
  \<^verbatim>\<open>loadUser\<close>, run by the constructor: the profile is fetched only when the
  stored token is truthy, and the subscriber's \<^verbatim>\<open>error\<close> handler logs out.
\<close>

definition loadUser :: "http_error + user \<Rightarrow> app_state \<Rightarrow> app_state" where
  "loadUser outcome s =
     (if truthy (getToken s)
      then (case outcome of
              Inr u \<Rightarrow> getUserProfile outcome s
            | Inl err \<Rightarrow> logout (getUserProfile outcome s))
      else s)"

text \<open>
  Numbers are IEEE 754 doubles. A finite double is a rational number, and the product
  of two doubles is the exact product rounded to the nearest double, ties to even:
  for \<^verbatim>\<open>2^e <= |x| < 2^(e+1)\<close> the doubles around \<open>x\<close> are the multiples of
  \<^verbatim>\<open>2^(e-52)\<close>, and below \<^verbatim>\<open>2^(-1022)\<close> (the subnormal numbers) the
  multiples of \<^verbatim>\<open>2^(-1074)\<close>. \<open>bit_length n\<close> is the number of binary digits of
  \<open>n\<close>, and \<open>binary_exponent x\<close> is the exponent \<open>e\<close> above, for positive \<open>x\<close>.
  Overflow to \<^verbatim>\<open>Infinity\<close> (from \<^verbatim>\<open>2^1024\<close> on) is not represented; the
  products taken by the code are below 64. A rational number is a double when
  rounding leaves it as it is.
\<close>

fun bit_length :: "nat \<Rightarrow> nat" where
  "bit_length n = (if n = 0 then 0 else Suc (bit_length (n div 2)))"

definition binary_exponent :: "rat \<Rightarrow> int" where
  "binary_exponent x =
     (if 1 \<le> x then int (bit_length (nat \<lfloor>x\<rfloor>)) - 1
      else - int (bit_length (nat (\<lceil>1 / x\<rceil> - 1))))"

definition round_half_even :: "rat \<Rightarrow> int" where
  "round_half_even y =
     (let f = \<lfloor>y\<rfloor>; d = y - of_int f
      in if d < 1 / 2 then f
         else if 1 / 2 < d then f + 1
         else if even f then f else f + 1)"

definition round_double :: "rat \<Rightarrow> rat" where
  "round_double x =
     (if x = 0 then 0
      else (let a = \<bar>x\<bar>;
                e = max (binary_exponent a) (- 1022);
                q = power_int 2 (e - 52)
            in sgn x * (of_int (round_half_even (a / q)) * q)))"

definition is_double :: "rat \<Rightarrow> bool" where
  "is_double x = (round_double x = x)"

text \<open>
  \<^verbatim>\<open>generateRandomString\<close>. \<^verbatim>\<open>Math.random()\<close> is modelled by the sequence
  of its results, \<open>rnd i\<close> being the result of the \<open>i\<close>-th call made by the loop.
  \<^verbatim>\<open>Math.random() * chars.length\<close> is the rounded product of two doubles, and
  \<^verbatim>\<open>Math.floor\<close> of a double is its floor. \<^verbatim>\<open>charAt\<close> answers the empty
  string for an index outside the string, as in JavaScript.
\<close>

definition chars :: string where
  "chars = ''ABCDEFGHIJKLMNOPQRSTUVWXYZabcdefghijklmnopqrstuvwxyz0123456789''"

definition charAt :: "string \<Rightarrow> int \<Rightarrow> string" where
  "charAt str i = (if 0 \<le> i \<and> i < int (length str) then [str ! nat i] else [])"

function generateRandomString_loop :: "nat \<Rightarrow> nat \<Rightarrow> (nat \<Rightarrow> rat) \<Rightarrow> string \<Rightarrow> string" where
  "generateRandomString_loop i len rnd result =
     (if i < len
      then generateRandomString_loop (i + 1) len rnd
             (result @ charAt chars \<lfloor>round_double (rnd i * of_nat (length chars))\<rfloor>)
      else result)"
  by pat_completeness auto
termination
  by (relation "measure (\<lambda>(i, len, rnd, result). len - i)") auto

definition generateRandomString :: "nat \<Rightarrow> (nat \<Rightarrow> rat) \<Rightarrow> string" where
  "generateRandomString len rnd = generateRandomString_loop 0 len rnd []"

text \<open>
  \<^verbatim>\<open>encodeURIComponent\<close> on a string of bytes: letters, digits and
  \<^verbatim>\<open>- _ . ! ~ * ' ( )\<close> are kept, every other byte becomes \<^verbatim>\<open>%XX\<close> in
  upper-case hexadecimal.
\<close>

definition uri_unreserved :: "char \<Rightarrow> bool" where
  "uri_unreserved c = (c \<in> set (chars @ ''-_.!~*()'' @ [CHR 0x27]))"

definition hex_digit :: "nat \<Rightarrow> char" where
  "hex_digit n = ''0123456789ABCDEF'' ! (n mod 16)"

definition encodeURIComponent :: "string \<Rightarrow> string" where
  "encodeURIComponent str =
     concat (map (\<lambda>c. if uri_unreserved c then [c]
                        else [CHR ''%'', hex_digit (of_char c div 16), hex_digit (of_char c mod 16)]) str)"

definition stateKey :: string where
  "stateKey = ''linkedin_state''"

definition getLinkedInAuthUrl :: "(nat \<Rightarrow> rat) \<Rightarrow> app_state \<Rightarrow> string \<times> app_state" where
  "getLinkedInAuthUrl rnd s =
     (let clientId = ''YOUR_LINKEDIN_CLIENT_ID'';
          redirectUri = encodeURIComponent ''http://localhost:4200/login'';
          state = generateRandomString 16 rnd;
          s1 = setItem stateKey state s
      in (''https://www.linkedin.com/oauth/v2/authorization?response_type=code&client_id='' @ clientId
            @ ''&redirect_uri='' @ redirectUri @ ''&state='' @ state
            @ ''&scope=r_liteprofile%20r_emailaddress'', s1))"

text \<open>
  Reading a URL back, as the provider does: the query is what follows the first
  \<^verbatim>\<open>?\<close>, its parameters are separated by \<^verbatim>\<open>&\<close>, and each is a name and
  a value separated by the first \<^verbatim>\<open>=\<close>.
\<close>

fun split_on :: "char \<Rightarrow> string \<Rightarrow> string list" where
  "split_on c [] = [[]]"
| "split_on c (x # xs) =
     (if x = c then [] # split_on c xs
      else (case split_on c xs of y # ys \<Rightarrow> (x # y) # ys | [] \<Rightarrow> [[x]]))"

definition query_params :: "string \<Rightarrow> (string \<times> string) list" where
  "query_params u =
     map (\<lambda>kv. (takeWhile (\<lambda>c. c \<noteq> CHR ''='') kv, drop 1 (dropWhile (\<lambda>c. c \<noteq> CHR ''='') kv)))
       (split_on (CHR ''&'') (drop 1 (dropWhile (\<lambda>c. c \<noteq> CHR ''?'') u)))"

section \<open>AuthInterceptor\<close>

text \<open>
  An outgoing request, with its headers as a dictionary from header name to value.
  \<^verbatim>\<open>environment.apiUrl\<close> comes from the environment file, which is
  configuration: it is the argument \<open>env_apiUrl\<close> (\<open>None\<close> when the property is
  not defined), and \<^verbatim>\<open>||\<close> falls back to the literal when it is falsy.
\<close>

record http_request =
  url :: string
  headers :: "string \<rightharpoonup> string"
  body :: "string option"

fun or_else :: "string option \<Rightarrow> string \<Rightarrow> string" where
  "or_else (Some v) d = (if v \<noteq> [] then v else d)"
| "or_else None d = d"

definition interceptor_apiUrl :: "string option \<Rightarrow> string" where
  "interceptor_apiUrl env_apiUrl = or_else env_apiUrl ''http://localhost:3000/api''"

definition intercept :: "string option \<Rightarrow> http_request \<Rightarrow> app_state \<Rightarrow> http_request" where
  "intercept env_apiUrl request s =
     (let isApiUrl = prefix (interceptor_apiUrl env_apiUrl) (url request)
      in case getToken s of
           Some t \<Rightarrow>
             if t \<noteq> [] \<and> isApiUrl
             then request\<lparr>headers := (headers request)(''Authorization'' \<mapsto> ''Bearer '' @ t)\<rparr>
             else request
         | None \<Rightarrow> request)"

section \<open>The sign-in dialog component\<close>

text \<open>
  The login form holds two controls. Its validity is computed by the framework from
  the validators given in the constructor: \<^verbatim>\<open>Validators.required\<close> rejects the
  empty value, \<^verbatim>\<open>Validators.minLength(6)\<close> rejects a non-empty value shorter
  than 6, and \<^verbatim>\<open>Validators.email\<close> rejects a non-empty value that the
  framework's pattern for e-mail addresses does not match. That pattern is not part of
  the repository: it is the argument \<open>email_pattern\<close>.
\<close>

record login_form =
  email :: string
  password :: string

record component =
  loginForm :: login_form
  errorMessage :: string
  loading :: bool

definition Validators_required :: "string \<Rightarrow> bool" where
  "Validators_required v = (v = [])"

definition Validators_email :: "(string \<Rightarrow> bool) \<Rightarrow> string \<Rightarrow> bool" where
  "Validators_email email_pattern v = (v \<noteq> [] \<and> \<not> email_pattern v)"

definition Validators_minLength :: "nat \<Rightarrow> string \<Rightarrow> bool" where
  "Validators_minLength n v = (v \<noteq> [] \<and> length v < n)"

definition form_invalid :: "(string \<Rightarrow> bool) \<Rightarrow> login_form \<Rightarrow> bool" where
  "form_invalid email_pattern f =
     ((Validators_required (email f) \<or> Validators_email email_pattern (email f)) \<or>
      (Validators_required (password f) \<or> Validators_minLength 6 (password f)))"

text \<open>
  \<^verbatim>\<open>state === savedState\<close>, between a query parameter (a string or
  \<^verbatim>\<open>undefined\<close>) and a stored item (a string or \<^verbatim>\<open>null\<close>).
\<close>

fun strict_eq :: "string option \<Rightarrow> string option \<Rightarrow> bool" where
  "strict_eq (Some a) (Some b) = (a = b)"
| "strict_eq _ _ = False"

text \<open>
  The callback that \<^verbatim>\<open>ngOnInit\<close> subscribes to the query parameters, run on
  one set of parameters.
\<close>

definition ngOnInit ::
  "(string \<rightharpoonup> string) \<Rightarrow> http_error + auth_response \<Rightarrow> component \<times> app_state \<Rightarrow> component \<times> app_state" where
  "ngOnInit params outcome cs =
     (let (c, s) = cs;
          code = params ''code'';
          state = params ''state'';
          savedState = getItem s stateKey
      in if truthy code \<and> truthy state \<and> strict_eq state savedState
         then (let c1 = c\<lparr>loading := True\<rparr>;
                   s1 = removeItem stateKey s;
                   s2 = loginWithLinkedIn (case code of Some v \<Rightarrow> v | None \<Rightarrow> []) outcome s1
               in case outcome of
                    Inr response \<Rightarrow> (c1, router_navigate [''/dashboard''] s2)
                  | Inl err \<Rightarrow>
                      (c1\<lparr>errorMessage := ''LinkedIn login failed. Please try again.'',
                           loading := False\<rparr>, s2))
         else (c, s))"

definition onSubmit ::
  "(string \<Rightarrow> bool) \<Rightarrow> http_error + auth_response \<Rightarrow> component \<times> app_state \<Rightarrow> component \<times> app_state" where
  "onSubmit email_pattern outcome cs =
     (let (c, s) = cs
      in if form_invalid email_pattern (loginForm c) then (c, s)
         else (let c1 = c\<lparr>loading := True\<rparr>;
                   s1 = login (email (loginForm c)) (password (loginForm c)) outcome s
               in case outcome of
                    Inr response \<Rightarrow> (c1, router_navigate [''/dashboard''] s1)
                  | Inl (HttpErrorResponse message) \<Rightarrow>
                      (c1\<lparr>errorMessage := or_else message ''Invalid email or password'',
                           loading := False\<rparr>, s1)))"

section \<open>Basic facts\<close>

lemmas effect_defs =
  getItem_def setItem_def removeItem_def userSubject_next_def router_navigate_def
  http_post_def http_get_def getToken_def setToken_def

declare bit_length.simps [simp del]

lemma bit_length_le: "n < 2 ^ k \<Longrightarrow> bit_length n \<le> k"
proof (induction k arbitrary: n)
  case 0
  then show ?case by (simp add: bit_length.simps)
next
  case (Suc k)
  show ?case
  proof (cases "n = 0")
    case True
    then show ?thesis by (simp add: bit_length.simps)
  next
    case False
    from Suc.prems have "n div 2 < 2 ^ k" by simp
    then have "bit_length (n div 2) \<le> k" by (rule Suc.IH)
    with False show ?thesis by (subst bit_length.simps) simp
  qed
qed

lemma bit_length_one: "bit_length (Suc 0) = 1"
  by (simp add: bit_length.simps)

lemma binary_exponent_le5:
  assumes "0 < x" "x < 64"
  shows "binary_exponent x \<le> 5"
proof (cases "1 \<le> x")
  case True
  have "\<lfloor>x\<rfloor> < 64" using assms by (simp add: floor_less_iff)
  then have "nat \<lfloor>x\<rfloor> < 64" by linarith
  then have "nat \<lfloor>x\<rfloor> < 2 ^ 6" by simp
  then have "bit_length (nat \<lfloor>x\<rfloor>) \<le> 6" by (rule bit_length_le)
  with True show ?thesis by (simp add: binary_exponent_def)
next
  case False
  then show ?thesis by (simp add: binary_exponent_def)
qed

lemma binary_exponent_half:
  assumes "1 / 2 \<le> x" "x < 1"
  shows "binary_exponent x = - 1"
proof -
  have pos: "0 < x" using assms by simp
  have "1 < 1 / x" using assms pos by simp
  moreover have "1 / x \<le> 2" using assms pos by (simp add: field_simps)
  ultimately have "\<lceil>1 / x\<rceil> = 2" by (simp add: ceiling_eq_iff)
  with assms show ?thesis by (simp add: binary_exponent_def bit_length_one)
qed

lemma round_half_even_upper: "of_int (round_half_even y) \<le> y + 1 / 2"
proof -
  have fl: "of_int \<lfloor>y\<rfloor> \<le> y" by simp
  show ?thesis
    by (auto simp: round_half_even_def Let_def; insert fl; linarith)
qed

lemma round_half_even_nonneg: "0 \<le> y \<Longrightarrow> 0 \<le> round_half_even y"
  by (auto simp: round_half_even_def Let_def)

lemma round_double_nonneg: "0 \<le> x \<Longrightarrow> 0 \<le> round_double x"
  by (auto simp: round_double_def Let_def sgn_if intro!: mult_nonneg_nonneg round_half_even_nonneg)

lemma round_double_upper:
  assumes "0 < x" "x < 64"
  shows "round_double x \<le> x + 1 / 2 ^ 48"
proof -
  define e where "e = max (binary_exponent x) (- 1022)"
  define q :: rat where "q = power_int 2 (e - 52)"
  have e5: "e \<le> 5" using binary_exponent_le5 [OF assms] by (simp add: e_def)
  have qpos: "0 < q" by (simp add: q_def)
  have "q \<le> power_int 2 (- 47)"
    unfolding q_def using e5 by (intro power_int_increasing) simp_all
  then have qle: "q \<le> 1 / 2 ^ 47" by (simp add: power_int_minus_divide)
  have rd: "round_double x = of_int (round_half_even (x / q)) * q"
    using assms by (simp add: round_double_def Let_def e_def q_def)
  have "of_int (round_half_even (x / q)) * q \<le> (x / q + 1 / 2) * q"
    using round_half_even_upper [of "x / q"] qpos by (simp add: mult_right_mono)
  also have "\<dots> = x + q / 2" using qpos by (simp add: field_simps)
  also have "\<dots> \<le> x + 1 / 2 ^ 48" using qle by simp
  finally show ?thesis by (simp add: rd)
qed

lemma double_below_one:
  assumes "is_double r" "0 \<le> r" "r < 1"
  shows "r \<le> 1 - 1 / 2 ^ 53"
proof (cases "r < 1 / 2")
  case True
  have "(1::rat) / 2 \<le> 1 - 1 / 2 ^ 53" by simp
  with True show ?thesis by linarith
next
  case False
  then have half: "1 / 2 \<le> r" by simp
  then have e: "binary_exponent r = - 1" using assms(3) by (rule binary_exponent_half)
  define N :: int where "N = 2 ^ 53"
  have Npos: "(0::rat) < of_int N" by (simp add: N_def)
  have Nrat: "(of_int N :: rat) = 2 ^ 53" by (simp add: N_def)
  define k where "k = round_half_even (r / power_int 2 (- 53))"
  have "round_double r = of_int k * power_int 2 (- 53)"
    using half by (simp add: round_double_def Let_def e k_def)
  with assms(1) have "r = of_int k * power_int 2 (- 53)"
    by (simp add: is_double_def)
  also have "power_int (2::rat) (- 53) = 1 / of_int N"
    by (simp add: power_int_minus_divide Nrat)
  finally have r: "r = of_int k / of_int N" by simp
  with assms(3) Npos have "(of_int k :: rat) < of_int N"
    by (simp add: divide_less_eq)
  then have "k < N" by (simp only: of_int_less_iff)
  then have "k \<le> N - 1" by simp
  then have "(of_int k :: rat) \<le> of_int (N - 1)" by (simp only: of_int_le_iff)
  then have "(of_int k :: rat) \<le> of_int N - 1" by simp
  then have "of_int k / of_int N \<le> (of_int N - 1) / (of_int N :: rat)"
    using Npos by (simp only: divide_right_mono less_imp_le)
  also have "\<dots> = 1 - 1 / of_int N" using Npos by (simp add: diff_divide_distrib)
  finally show ?thesis by (simp only: r Nrat)
qed

lemma random_index_in_range:
  assumes "is_double r" "0 \<le> r" "r < 1"
  shows "0 \<le> \<lfloor>round_double (r * 62)\<rfloor> \<and> \<lfloor>round_double (r * 62)\<rfloor> < 62"
proof
  have "0 \<le> round_double (r * 62)" using assms(2) by (intro round_double_nonneg) simp
  then show "0 \<le> \<lfloor>round_double (r * 62)\<rfloor>" by simp
next
  have le: "r * 62 \<le> 62 - 62 / 2 ^ 53" using double_below_one [OF assms] by simp
  have "round_double (r * 62) < 62"
  proof (cases "r = 0")
    case True
    then show ?thesis by (simp add: round_double_def)
  next
    case False
    with assms have "0 < r * 62" "r * 62 < 64" by simp_all
    then have "round_double (r * 62) \<le> r * 62 + 1 / 2 ^ 48" by (rule round_double_upper)
    also have "\<dots> \<le> 62 - 62 / 2 ^ 53 + 1 / 2 ^ 48" using le by simp
    also have "\<dots> < 62" by simp
    finally show ?thesis .
  qed
  then show "\<lfloor>round_double (r * 62)\<rfloor> < 62" by (simp add: floor_less_iff)
qed

declare generateRandomString_loop.simps [simp del]

lemma generateRandomString_loop_eq:
  "generateRandomString_loop i len rnd acc =
     acc @ concat (map (\<lambda>k. charAt chars \<lfloor>round_double (rnd k * of_nat (length chars))\<rfloor>) [i..<len])"
proof (induction i len rnd acc rule: generateRandomString_loop.induct)
  case (1 i len rnd result)
  show ?case
  proof (cases "i < len")
    case True
    then show ?thesis
      using "1.IH" [OF True]
      by (subst generateRandomString_loop.simps) (simp add: upt_conv_Cons)
  next
    case False
    then show ?thesis
      by (subst generateRandomString_loop.simps) simp
  qed
qed

lemma length_chars: "length chars = 62"
  by (simp add: chars_def)

lemma generateRandomString_eq:
  "generateRandomString len rnd =
     concat (map (\<lambda>k. charAt chars \<lfloor>round_double (rnd k * 62)\<rfloor>) [0..<len])"
  by (simp add: generateRandomString_def generateRandomString_loop_eq length_chars)

lemma charAt_subset: "set (charAt str i) \<subseteq> set str"
  by (auto simp: charAt_def nat_less_iff)

lemma generateRandomString_alphabet: "set (generateRandomString len rnd) \<subseteq> set chars"
  using charAt_subset by (fastforce simp: generateRandomString_eq)

lemma charAt_random:
  assumes "is_double r" "0 \<le> r" "r < 1"
  shows "charAt chars \<lfloor>round_double (r * 62)\<rfloor> = [chars ! nat \<lfloor>round_double (r * 62)\<rfloor>]"
  using random_index_in_range [OF assms] by (simp add: charAt_def length_chars)

lemma concat_map_singleton: "concat (map (\<lambda>k. [f k]) xs) = map f xs"
  by (induction xs) simp_all

lemma generateRandomString_map:
  assumes "\<And>i. i < len \<Longrightarrow> is_double (rnd i) \<and> 0 \<le> rnd i \<and> rnd i < 1"
  shows "generateRandomString len rnd =
     map (\<lambda>k. chars ! nat \<lfloor>round_double (rnd k * 62)\<rfloor>) [0..<len]"
proof -
  have "map (\<lambda>k. charAt chars \<lfloor>round_double (rnd k * 62)\<rfloor>) [0..<len] =
        map (\<lambda>k. [chars ! nat \<lfloor>round_double (rnd k * 62)\<rfloor>]) [0..<len]"
    by (rule map_cong) (use assms in \<open>simp_all add: charAt_random\<close>)
  then show ?thesis
    by (simp only: generateRandomString_eq concat_map_singleton)
qed

lemma generateRandomString_length:
  assumes "\<And>i. i < len \<Longrightarrow> is_double (rnd i) \<and> 0 \<le> rnd i \<and> rnd i < 1"
  shows "length (generateRandomString len rnd) = len"
  by (simp add: generateRandomString_map [OF assms])

lemma chars_alnum:
  "c \<in> set chars \<Longrightarrow>
     (65 \<le> (of_char c :: nat) \<and> (of_char c :: nat) \<le> 90) \<or>
     (97 \<le> (of_char c :: nat) \<and> (of_char c :: nat) \<le> 122) \<or>
     (48 \<le> (of_char c :: nat) \<and> (of_char c :: nat) \<le> 57)"
  by (auto simp: chars_def)

lemma distinct_chars: "distinct chars"
  by (simp add: chars_def)

lemma encodeURIComponent_unreserved:
  "set str \<subseteq> set chars \<Longrightarrow> encodeURIComponent str = str"
  by (induction str) (auto simp: encodeURIComponent_def uri_unreserved_def)

lemma split_on_not_Nil: "split_on c xs \<noteq> []"
  by (induction xs) (auto split: list.splits)

lemma split_on_append:
  "c \<notin> set xs \<Longrightarrow> split_on c (xs @ c # ys) = xs # split_on c ys"
  by (induction xs) auto

lemma amp_notin_chars: "CHR ''&'' \<notin> set chars"
  by (simp add: chars_def)

lemma encode_redirect:
  "encodeURIComponent ''http://localhost:4200/login'' = ''http%3A%2F%2Flocalhost%3A4200%2Flogin''"
  by (simp add: encodeURIComponent_def uri_unreserved_def hex_digit_def chars_def)

lemma url_shape:
  "fst (getLinkedInAuthUrl rnd s) =
     ''https://www.linkedin.com/oauth/v2/authorization?response_type=code&client_id=YOUR_LINKEDIN_CLIENT_ID&redirect_uri=http%3A%2F%2Flocalhost%3A4200%2Flogin&state=''
       @ generateRandomString 16 rnd @ ''&scope=r_liteprofile%20r_emailaddress''"
  by (simp add: getLinkedInAuthUrl_def Let_def encode_redirect)

lemma query_of_url:
  assumes "CHR ''&'' \<notin> set n"
  shows "query_params (''https://www.linkedin.com/oauth/v2/authorization?response_type=code&client_id=YOUR_LINKEDIN_CLIENT_ID&redirect_uri=http%3A%2F%2Flocalhost%3A4200%2Flogin&state=''
       @ n @ ''&scope=r_liteprofile%20r_emailaddress'') =
     [(''response_type'', ''code''), (''client_id'', ''YOUR_LINKEDIN_CLIENT_ID''),
      (''redirect_uri'', ''http%3A%2F%2Flocalhost%3A4200%2Flogin''), (''state'', n),
      (''scope'', ''r_liteprofile%20r_emailaddress'')]"
  using assms by (simp add: query_params_def split_on_append)

lemma is_double_half: "is_double (1 / 2)"
  by code_simp

lemma generateRandomString_half: "generateRandomString 16 (\<lambda>i. 1 / 2) = ''ffffffffffffffff''"
  by code_simp

text \<open>
  Rounding matters: for the double \<^verbatim>\<open>1162219258676257 / 2^52\<close> the exact product
  with 62 is \<^verbatim>\<open>16 - 2^(-51)\<close>, which rounds to 16, so the character drawn is
  \<^verbatim>\<open>chars[16]\<close> and not \<^verbatim>\<open>chars[15]\<close>.
\<close>

lemma round_double_ties_up: "round_double (1162219258676257 / 2 ^ 52 * 62) = 16"
  by code_simp

lemma generateRandomString_rounded:
  "generateRandomString 1 (\<lambda>i. 1162219258676257 / 2 ^ 52) = ''Q''"
  by code_simp

lemma generateRandomString_quarter: "generateRandomString 16 (\<lambda>i. 1 / 4) = ''PPPPPPPPPPPPPPPP''"
  by code_simp

lemma generateRandomString_inj:
  assumes "\<And>i. i < len \<Longrightarrow> is_double (rnd i) \<and> 0 \<le> rnd i \<and> rnd i < 1"
    and "\<And>i. i < len \<Longrightarrow> is_double (rnd' i) \<and> 0 \<le> rnd' i \<and> rnd' i < 1"
  shows "generateRandomString len rnd = generateRandomString len rnd' \<longleftrightarrow>
     (\<forall>k<len. \<lfloor>round_double (rnd k * 62)\<rfloor> = \<lfloor>round_double (rnd' k * 62)\<rfloor>)"
proof -
  have eq: "chars ! nat \<lfloor>round_double (rnd k * 62)\<rfloor> = chars ! nat \<lfloor>round_double (rnd' k * 62)\<rfloor>
        \<longleftrightarrow> \<lfloor>round_double (rnd k * 62)\<rfloor> = \<lfloor>round_double (rnd' k * 62)\<rfloor>"
    if "k < len" for k
  proof -
    have a: "0 \<le> \<lfloor>round_double (rnd k * 62)\<rfloor> \<and> \<lfloor>round_double (rnd k * 62)\<rfloor> < 62"
      using assms(1) [OF that] by (intro random_index_in_range) simp_all
    have b: "0 \<le> \<lfloor>round_double (rnd' k * 62)\<rfloor> \<and> \<lfloor>round_double (rnd' k * 62)\<rfloor> < 62"
      using assms(2) [OF that] by (intro random_index_in_range) simp_all
    have na: "nat \<lfloor>round_double (rnd k * 62)\<rfloor> < length chars"
      unfolding length_chars using a by linarith
    have nb: "nat \<lfloor>round_double (rnd' k * 62)\<rfloor> < length chars"
      unfolding length_chars using b by linarith
    have "chars ! nat \<lfloor>round_double (rnd k * 62)\<rfloor> = chars ! nat \<lfloor>round_double (rnd' k * 62)\<rfloor>
        \<longleftrightarrow> nat \<lfloor>round_double (rnd k * 62)\<rfloor> = nat \<lfloor>round_double (rnd' k * 62)\<rfloor>"
      using distinct_chars na nb by (rule nth_eq_iff_index_eq)
    also have "\<dots> \<longleftrightarrow> \<lfloor>round_double (rnd k * 62)\<rfloor> = \<lfloor>round_double (rnd' k * 62)\<rfloor>"
      using a b by linarith
    finally show ?thesis .
  qed
  show ?thesis
    by (auto simp: generateRandomString_map [OF assms(1)] generateRandomString_map [OF assms(2)] eq)
qed

section \<open>Request interceptor\<close>

text \<open>
  C1, as amended. For every outgoing request, the interceptor sets the header
  \<^verbatim>\<open>Authorization: Bearer <token>\<close> if and only if the token read from storage is a
  non-empty string and the request URL starts with the configured API base URL; in
  every other case the request handed on is the request received. (The claim as
  written asks only for a token to be present in storage.)
\<close>

theorem intercept_bearer_iff:
  "(\<forall>t. getToken s = Some t \<and> t \<noteq> [] \<and> prefix (interceptor_apiUrl env) (url request) \<longrightarrow>
        intercept env request s =
          request\<lparr>headers := (headers request)(''Authorization'' \<mapsto> ''Bearer '' @ t)\<rparr>) \<and>
   (\<not> (truthy (getToken s) \<and> prefix (interceptor_apiUrl env) (url request)) \<longrightarrow>
        intercept env request s = request)"
  by (cases "getToken s") (auto simp: intercept_def Let_def)

text \<open>
  A request to the API with the token \<^verbatim>\<open>abc\<close> stored gets the header; a request
  to the OAuth provider, with the same token stored, is handed on as it is.
\<close>

theorem intercept_bearer_iff_witness:
  "headers (intercept None \<lparr>url = ''http://localhost:3000/api/users/me'', headers = Map.empty, body = None\<rparr>
      \<lparr>localStorage = [tokenKey \<mapsto> ''abc''], userSubject = None, trace = []\<rparr>) ''Authorization''
     = Some ''Bearer abc'' \<and>
   intercept (Some ''https://api.example.org'')
      \<lparr>url = ''https://www.linkedin.com/oauth/v2/accessToken'', headers = Map.empty, body = None\<rparr>
      \<lparr>localStorage = [tokenKey \<mapsto> ''abc''], userSubject = None, trace = []\<rparr>
     = \<lparr>url = ''https://www.linkedin.com/oauth/v2/accessToken'', headers = Map.empty, body = None\<rparr>"
  using intercept_bearer_iff [of "\<lparr>localStorage = [tokenKey \<mapsto> ''abc''], userSubject = None, trace = []\<rparr>"
      None "\<lparr>url = ''http://localhost:3000/api/users/me'', headers = Map.empty, body = None\<rparr>"]
    intercept_bearer_iff [of "\<lparr>localStorage = [tokenKey \<mapsto> ''abc''], userSubject = None, trace = []\<rparr>"
      "Some ''https://api.example.org''"
      "\<lparr>url = ''https://www.linkedin.com/oauth/v2/accessToken'', headers = Map.empty, body = None\<rparr>"]
  by (simp add: getToken_def getItem_def interceptor_apiUrl_def)

text \<open>
  C1 as written fails when the stored token is the empty string: the key is present
  in storage and the URL is the API's, yet \<^verbatim>\<open>token && isApiUrl\<close> is falsy and no
  header is set.
\<close>

theorem intercept_empty_token_counterexample:
  "getToken \<lparr>localStorage = [tokenKey \<mapsto> []], userSubject = None, trace = []\<rparr> \<noteq> None \<and>
   prefix (interceptor_apiUrl None)
     (url \<lparr>url = ''http://localhost:3000/api/users/me'', headers = Map.empty, body = None\<rparr>) \<and>
   headers (intercept None \<lparr>url = ''http://localhost:3000/api/users/me'', headers = Map.empty, body = None\<rparr>
      \<lparr>localStorage = [tokenKey \<mapsto> []], userSubject = None, trace = []\<rparr>) ''Authorization'' = None"
  by (simp add: intercept_def getToken_def getItem_def interceptor_apiUrl_def)

section \<open>Session store\<close>

text \<open>
  C2, as amended. When the profile fetch started by \<^verbatim>\<open>loadUser\<close> (a truthy
  token is stored when the service is constructed) fails, the token is removed from
  storage, the user is set to null and pushed to the observers, and the router is
  asked for the login view. \<^verbatim>\<open>getUserProfile\<close> itself, when it fails, changes
  neither storage nor user: the logout is its caller's.
\<close>

theorem profile_failure_logout_by_loadUser:
  assumes "truthy (getToken s)"
  shows "getToken (loadUser (Inl err) s) = None \<and>
     userSubject (loadUser (Inl err) s) = None \<and>
     trace (loadUser (Inl err) s) =
       trace s @ [HttpGet (apiUrl @ ''/users/me''), StorageRemove tokenKey, Emit None,
                  Navigate [''/login'']] \<and>
     localStorage (getUserProfile (Inl err) s) = localStorage s \<and>
     userSubject (getUserProfile (Inl err) s) = userSubject s \<and>
     trace (getUserProfile (Inl err) s) = trace s @ [HttpGet (apiUrl @ ''/users/me'')]"
  using assms by (simp add: loadUser_def logout_def getUserProfile_def effect_defs)

theorem profile_failure_logout_by_loadUser_witness:
  "truthy (getToken \<lparr>localStorage = [tokenKey \<mapsto> ''abc''], userSubject = Some ''alice'', trace = []\<rparr>) \<and>
   getToken (loadUser (Inl (HttpErrorResponse None)) \<lparr>localStorage = [tokenKey \<mapsto> ''abc''], userSubject = Some ''alice'', trace = []\<rparr>) = None \<and>
   userSubject (loadUser (Inl (HttpErrorResponse None)) \<lparr>localStorage = [tokenKey \<mapsto> ''abc''], userSubject = Some ''alice'', trace = []\<rparr>) = None"
  using profile_failure_logout_by_loadUser [of "\<lparr>localStorage = [tokenKey \<mapsto> ''abc''], userSubject = Some ''alice'', trace = []\<rparr>" "HttpErrorResponse None"]
  by (simp add: effect_defs)

text \<open>
  C2 as written fails for a caller of \<^verbatim>\<open>getUserProfile\<close> other than
  \<^verbatim>\<open>loadUser\<close>: with the token \<^verbatim>\<open>abc\<close> and the user \<^verbatim>\<open>alice\<close> in the
  store, a failing fetch leaves both in place.
\<close>

theorem getUserProfile_failure_counterexample:
  "getToken (getUserProfile (Inl (HttpErrorResponse None)) \<lparr>localStorage = [tokenKey \<mapsto> ''abc''], userSubject = Some ''alice'', trace = []\<rparr>) = Some ''abc'' \<and>
   userSubject (getUserProfile (Inl (HttpErrorResponse None)) \<lparr>localStorage = [tokenKey \<mapsto> ''abc''], userSubject = Some ''alice'', trace = []\<rparr>) = Some ''alice''"
  by (simp add: getUserProfile_def effect_defs)

text \<open>
  C3. For every login attempt: when the backend accepts, the token is written to
  storage and then the user is pushed to the observers of the session store; when
  the backend rejects, neither the storage nor the stored user changes and nothing
  is pushed. The POST is the only other effect.
\<close>

theorem login_all_or_nothing:
  "getToken (login e p (Inr r) s) = Some (token r) \<and>
   userSubject (login e p (Inr r) s) = Some (user r) \<and>
   trace (login e p (Inr r) s) =
     trace s @ [HttpPost (apiUrl @ ''/auth/login'') [(''email'', e), (''password'', p)],
                StorageSet tokenKey (token r), Emit (Some (user r))] \<and>
   localStorage (login e p (Inl err) s) = localStorage s \<and>
   userSubject (login e p (Inl err) s) = userSubject s \<and>
   trace (login e p (Inl err) s) =
     trace s @ [HttpPost (apiUrl @ ''/auth/login'') [(''email'', e), (''password'', p)]]"
  by (simp add: login_def effect_defs)

theorem login_all_or_nothing_witness:
  "getToken (login ''a@b.c'' ''secret1'' (Inr \<lparr>token = ''t1'', user = ''bob''\<rparr>) \<lparr>localStorage = [tokenKey \<mapsto> ''abc''], userSubject = Some ''alice'', trace = []\<rparr>) = Some ''t1'' \<and>
   userSubject (login ''a@b.c'' ''secret1'' (Inr \<lparr>token = ''t1'', user = ''bob''\<rparr>) \<lparr>localStorage = [tokenKey \<mapsto> ''abc''], userSubject = Some ''alice'', trace = []\<rparr>) = Some ''bob'' \<and>
   getToken (login ''a@b.c'' ''secret1'' (Inl (HttpErrorResponse None)) \<lparr>localStorage = [tokenKey \<mapsto> ''abc''], userSubject = Some ''alice'', trace = []\<rparr>) = Some ''abc'' \<and>
   userSubject (login ''a@b.c'' ''secret1'' (Inl (HttpErrorResponse None)) \<lparr>localStorage = [tokenKey \<mapsto> ''abc''], userSubject = Some ''alice'', trace = []\<rparr>) = Some ''alice''"
  using login_all_or_nothing [of "''a@b.c''" "''secret1''" "\<lparr>token = ''t1'', user = ''bob''\<rparr>" "\<lparr>localStorage = [tokenKey \<mapsto> ''abc''], userSubject = Some ''alice'', trace = []\<rparr>"
      "HttpErrorResponse None"]
  by (simp add: effect_defs)

text \<open>
  C7. Every call of \<^verbatim>\<open>register\<close>, whatever the backend answers, leaves the
  storage (hence the token) and the session-store user as they were; its only effect
  is the POST of the user data.
\<close>

theorem register_keeps_session:
  "localStorage (register userData outcome s) = localStorage s \<and>
   userSubject (register userData outcome s) = userSubject s \<and>
   trace (register userData outcome s) =
     trace s @ [HttpPost (apiUrl @ ''/auth/register'') userData]"
  by (simp add: register_def effect_defs)

theorem register_keeps_session_witness:
  "getToken (register [(''name'', ''Bob''), (''email'', ''a@b.c''), (''password'', ''secret1'')]
      (Inr \<lparr>token = ''t1'', user = ''bob''\<rparr>) \<lparr>localStorage = [tokenKey \<mapsto> ''abc''], userSubject = Some ''alice'', trace = []\<rparr>) = Some ''abc'' \<and>
   userSubject (register [(''name'', ''Bob''), (''email'', ''a@b.c''), (''password'', ''secret1'')]
      (Inr \<lparr>token = ''t1'', user = ''bob''\<rparr>) \<lparr>localStorage = [tokenKey \<mapsto> ''abc''], userSubject = Some ''alice'', trace = []\<rparr>) = Some ''alice''"
  using register_keeps_session [of "[(''name'', ''Bob''), (''email'', ''a@b.c''), (''password'', ''secret1'')]"
      "Inr \<lparr>token = ''t1'', user = ''bob''\<rparr>" "\<lparr>localStorage = [tokenKey \<mapsto> ''abc''], userSubject = Some ''alice'', trace = []\<rparr>"]
  by (simp add: effect_defs)

text \<open>
  C9. Every call of \<^verbatim>\<open>logout\<close>, in every starting state, removes the token
  from storage, sets the session-store user to null and pushes that null to the
  observers, and asks the router for the login view; these are its only effects, in
  this order.
\<close>

theorem logout_clears_and_navigates:
  "getToken (logout s) = None \<and>
   userSubject (logout s) = None \<and>
   trace (logout s) = trace s @ [StorageRemove tokenKey, Emit None, Navigate [''/login'']]"
  by (simp add: logout_def effect_defs)

theorem logout_clears_and_navigates_witness:
  "getToken (logout \<lparr>localStorage = [tokenKey \<mapsto> ''abc''], userSubject = Some ''alice'', trace = []\<rparr>) = None \<and>
   userSubject (logout \<lparr>localStorage = [tokenKey \<mapsto> ''abc''], userSubject = Some ''alice'', trace = []\<rparr>) = None \<and>
   trace (logout \<lparr>localStorage = [tokenKey \<mapsto> ''abc''], userSubject = Some ''alice'', trace = []\<rparr>) = [StorageRemove ''auth_token'', Emit None, Navigate [''/login'']]"
  using logout_clears_and_navigates [of "\<lparr>localStorage = [tokenKey \<mapsto> ''abc''], userSubject = Some ''alice'', trace = []\<rparr>"]
  by (simp add: tokenKey_def)

section \<open>OAuth redirect handler\<close>

text \<open>
  C4. When the \<^verbatim>\<open>state\<close> query parameter is absent or differs from the nonce
  kept in local storage, initialising the component changes nothing: no code
  exchange is issued, no error message is set, and the storage, the nonce included,
  is as before.
\<close>

theorem ngOnInit_state_mismatch:
  assumes "params ''state'' = None \<or> params ''state'' \<noteq> getItem s stateKey"
  shows "ngOnInit params outcome (c, s) = (c, s)"
proof (cases "params ''state''")
  case None
  then show ?thesis by (simp add: ngOnInit_def Let_def)
next
  case (Some st)
  with assms have "\<not> strict_eq (Some st) (getItem s stateKey)"
    by (cases "getItem s stateKey") auto
  with Some show ?thesis by (simp add: ngOnInit_def Let_def)
qed

text \<open>The scenario of the specification: nonce \<^verbatim>\<open>AbC123\<close>, callback with \<^verbatim>\<open>state=WRONG\<close>.\<close>

theorem ngOnInit_state_mismatch_witness:
  "ngOnInit [''code'' \<mapsto> ''xyz'', ''state'' \<mapsto> ''WRONG''] (Inr \<lparr>token = ''t'', user = ''u''\<rparr>)
     (\<lparr>loginForm = \<lparr>email = [], password = []\<rparr>, errorMessage = [], loading = False\<rparr>, \<lparr>localStorage = [stateKey \<mapsto> ''AbC123''], userSubject = None, trace = []\<rparr>)
   = (\<lparr>loginForm = \<lparr>email = [], password = []\<rparr>, errorMessage = [], loading = False\<rparr>, \<lparr>localStorage = [stateKey \<mapsto> ''AbC123''], userSubject = None, trace = []\<rparr>)"
  using ngOnInit_state_mismatch [of "[''code'' \<mapsto> ''xyz'', ''state'' \<mapsto> ''WRONG'']" "\<lparr>localStorage = [stateKey \<mapsto> ''AbC123''], userSubject = None, trace = []\<rparr>"]
  by (simp add: getItem_def)

text \<open>
  C5, as amended. For every callback whose \<^verbatim>\<open>code\<close> and \<^verbatim>\<open>state\<close> are
  non-empty strings and whose \<^verbatim>\<open>state\<close> equals the persisted nonce, the nonce is
  removed from storage exactly once, before the code exchange is issued, whether
  the exchange then succeeds or fails; in the state this leaves, no later callback,
  whatever its parameters, is accepted. (The claim as written asks only for
  \<^verbatim>\<open>code\<close> and \<^verbatim>\<open>state\<close> to be present.)
\<close>

theorem ngOnInit_consumes_nonce:
  assumes "params ''code'' = Some code" and "code \<noteq> []"
    and "params ''state'' = Some st" and "st \<noteq> []"
    and "getItem s stateKey = Some st"
  shows "getItem (snd (ngOnInit params outcome (c, s))) stateKey = None \<and>
     trace (snd (ngOnInit params outcome (c, s))) =
       trace s @ [StorageRemove stateKey, HttpPost (apiUrl @ ''/auth/linkedin'') [(''code'', code)]]
         @ (case outcome of
              Inr r \<Rightarrow> [StorageSet tokenKey (token r), Emit (Some (user r)), Navigate [''/dashboard'']]
            | Inl e \<Rightarrow> []) \<and>
     ngOnInit params' outcome' (c', snd (ngOnInit params outcome (c, s)))
       = (c', snd (ngOnInit params outcome (c, s)))"
proof -
  let ?s' = "snd (ngOnInit params outcome (c, s))"
  have gone: "getItem ?s' stateKey = None"
    using assms
    by (cases outcome)
       (simp_all add: ngOnInit_def Let_def loginWithLinkedIn_def effect_defs stateKey_def tokenKey_def)
  have tr: "trace ?s' =
       trace s @ [StorageRemove stateKey, HttpPost (apiUrl @ ''/auth/linkedin'') [(''code'', code)]]
         @ (case outcome of
              Inr r \<Rightarrow> [StorageSet tokenKey (token r), Emit (Some (user r)), Navigate [''/dashboard'']]
            | Inl e \<Rightarrow> [])"
    using assms
    by (cases outcome)
       (simp_all add: ngOnInit_def Let_def loginWithLinkedIn_def effect_defs)
  have again: "ngOnInit params' outcome' (c', ?s') = (c', ?s')"
    using gone by (cases "params' ''state''") (simp_all add: ngOnInit_def Let_def)
  from gone tr again show ?thesis by blast
qed

text \<open>
  The scenario of the specification: nonce \<^verbatim>\<open>AbC123\<close>, callback with
  \<^verbatim>\<open>code=xyz&state=AbC123\<close>; here the exchange fails.
\<close>

theorem ngOnInit_consumes_nonce_witness:
  "getItem (snd (ngOnInit [''code'' \<mapsto> ''xyz'', ''state'' \<mapsto> ''AbC123'']
     (Inl (HttpErrorResponse None)) (\<lparr>loginForm = \<lparr>email = [], password = []\<rparr>, errorMessage = [], loading = False\<rparr>, \<lparr>localStorage = [stateKey \<mapsto> ''AbC123''], userSubject = None, trace = []\<rparr>))) stateKey = None \<and>
   trace (snd (ngOnInit [''code'' \<mapsto> ''xyz'', ''state'' \<mapsto> ''AbC123'']
     (Inl (HttpErrorResponse None)) (\<lparr>loginForm = \<lparr>email = [], password = []\<rparr>, errorMessage = [], loading = False\<rparr>, \<lparr>localStorage = [stateKey \<mapsto> ''AbC123''], userSubject = None, trace = []\<rparr>))) =
     [StorageRemove stateKey, HttpPost (apiUrl @ ''/auth/linkedin'') [(''code'', ''xyz'')]]"
  using ngOnInit_consumes_nonce [of "[''code'' \<mapsto> ''xyz'', ''state'' \<mapsto> ''AbC123'']" "''xyz''" "''AbC123''"
      "\<lparr>localStorage = [stateKey \<mapsto> ''AbC123''], userSubject = None, trace = []\<rparr>" "Inl (HttpErrorResponse None)" "\<lparr>loginForm = \<lparr>email = [], password = []\<rparr>, errorMessage = [], loading = False\<rparr>"]
  by (simp add: getItem_def)

text \<open>
  C5 as written fails for a callback whose \<^verbatim>\<open>code\<close> parameter is present but
  empty (\<^verbatim>\<open>?code=&state=AbC123\<close>): the state equals the nonce, yet the guard
  \<^verbatim>\<open>code && state && state === savedState\<close> is falsy and the nonce stays in storage.
\<close>

theorem ngOnInit_empty_code_counterexample:
  "[''code'' \<mapsto> [], ''state'' \<mapsto> ''AbC123''] ''code'' \<noteq> None \<and>
   [''code'' \<mapsto> [], ''state'' \<mapsto> ''AbC123''] ''state'' = getItem \<lparr>localStorage = [stateKey \<mapsto> ''AbC123''], userSubject = None, trace = []\<rparr> stateKey \<and>
   getItem (snd (ngOnInit [''code'' \<mapsto> [], ''state'' \<mapsto> ''AbC123''] (Inr \<lparr>token = ''t'', user = ''u''\<rparr>)
     (\<lparr>loginForm = \<lparr>email = [], password = []\<rparr>, errorMessage = [], loading = False\<rparr>, \<lparr>localStorage = [stateKey \<mapsto> ''AbC123''], userSubject = None, trace = []\<rparr>))) stateKey
     = Some ''AbC123''"
  by (simp add: ngOnInit_def Let_def getItem_def)

section \<open>Login form\<close>

text \<open>
  C6. When the login form is invalid, and in particular when the e-mail does not
  match the e-mail pattern or the password has fewer than 6 characters, the submit
  handler returns with the component and the application state unchanged: no
  network call is issued and the session store is as before.
\<close>

theorem onSubmit_invalid_form:
  assumes "form_invalid email_pattern (loginForm c) \<or>
           \<not> email_pattern (email (loginForm c)) \<or>
           length (password (loginForm c)) < 6"
  shows "onSubmit email_pattern outcome (c, s) = (c, s)"
proof -
  have "form_invalid email_pattern (loginForm c)"
    using assms
    by (auto simp: form_invalid_def Validators_required_def Validators_email_def
        Validators_minLength_def)
  then show ?thesis by (simp add: onSubmit_def)
qed

theorem onSubmit_invalid_form_witness:
  "onSubmit (\<lambda>v. CHR ''@'' \<in> set v) (Inr \<lparr>token = ''t'', user = ''u''\<rparr>)
     (\<lparr>loginForm = \<lparr>email = ''not-an-email'', password = ''secret1''\<rparr>, errorMessage = [], loading = False\<rparr>,
      \<lparr>localStorage = Map.empty, userSubject = None, trace = []\<rparr>)
   = (\<lparr>loginForm = \<lparr>email = ''not-an-email'', password = ''secret1''\<rparr>, errorMessage = [], loading = False\<rparr>,
      \<lparr>localStorage = Map.empty, userSubject = None, trace = []\<rparr>)"
  using onSubmit_invalid_form [of "\<lambda>v. CHR ''@'' \<in> set v"
      "\<lparr>loginForm = \<lparr>email = ''not-an-email'', password = ''secret1''\<rparr>, errorMessage = [], loading = False\<rparr>"]
  by simp

section \<open>OAuth redirect URL and nonce\<close>

text \<open>
  C8. Every call of \<^verbatim>\<open>getLinkedInAuthUrl\<close> generates a nonce from the random
  draws of this call, stores it in local storage under the nonce key (its only
  effect), and returns the provider's authorisation URL whose query holds exactly
  the parameters \<^verbatim>\<open>response_type=code\<close>, \<^verbatim>\<open>client_id\<close>,
  \<^verbatim>\<open>redirect_uri\<close>, \<^verbatim>\<open>state\<close> and \<^verbatim>\<open>scope\<close>, in this order, the
  value of \<^verbatim>\<open>state\<close> being the nonce just stored. The nonce is made of the
  draws: it is the concatenation, over the 16 draws in order, of the character of
  \<open>chars\<close> at the floor of the rounded product of the draw with 62. When every
  draw is a double from 0 (included) to 1 (excluded), as \<^verbatim>\<open>Math.random()\<close>
  promises, the \<open>k\<close>-th character of the nonce is that character of \<open>chars\<close>,
  and two sequences of draws give the same nonce exactly when they select the same
  16 indices.
\<close>

theorem getLinkedInAuthUrl_nonce_and_query:
  "getItem (snd (getLinkedInAuthUrl rnd s)) stateKey = Some (generateRandomString 16 rnd) \<and>
   trace (snd (getLinkedInAuthUrl rnd s)) = trace s @ [StorageSet stateKey (generateRandomString 16 rnd)] \<and>
   fst (getLinkedInAuthUrl rnd s) =
     ''https://www.linkedin.com/oauth/v2/authorization?response_type=code&client_id=YOUR_LINKEDIN_CLIENT_ID&redirect_uri=http%3A%2F%2Flocalhost%3A4200%2Flogin&state=''
       @ generateRandomString 16 rnd @ ''&scope=r_liteprofile%20r_emailaddress'' \<and>
   query_params (fst (getLinkedInAuthUrl rnd s)) =
     [(''response_type'', ''code''), (''client_id'', ''YOUR_LINKEDIN_CLIENT_ID''),
      (''redirect_uri'', encodeURIComponent ''http://localhost:4200/login''),
      (''state'', generateRandomString 16 rnd),
      (''scope'', ''r_liteprofile%20r_emailaddress'')] \<and>
   generateRandomString 16 rnd =
     concat (map (\<lambda>k. charAt chars \<lfloor>round_double (rnd k * 62)\<rfloor>) [0..<16]) \<and>
   ((\<forall>i<16. is_double (rnd i) \<and> 0 \<le> rnd i \<and> rnd i < 1) \<longrightarrow>
      generateRandomString 16 rnd =
        map (\<lambda>k. chars ! nat \<lfloor>round_double (rnd k * 62)\<rfloor>) [0..<16]) \<and>
   ((\<forall>i<16. is_double (rnd i) \<and> 0 \<le> rnd i \<and> rnd i < 1) \<and>
    (\<forall>i<16. is_double (rnd' i) \<and> 0 \<le> rnd' i \<and> rnd' i < 1) \<longrightarrow>
      (generateRandomString 16 rnd = generateRandomString 16 rnd' \<longleftrightarrow>
         (\<forall>k<16. \<lfloor>round_double (rnd k * 62)\<rfloor> = \<lfloor>round_double (rnd' k * 62)\<rfloor>)))"
proof -
  have stored: "getItem (snd (getLinkedInAuthUrl rnd s)) stateKey = Some (generateRandomString 16 rnd)"
    by (simp add: getLinkedInAuthUrl_def Let_def getItem_def setItem_def)
  have tr: "trace (snd (getLinkedInAuthUrl rnd s)) =
      trace s @ [StorageSet stateKey (generateRandomString 16 rnd)]"
    by (simp add: getLinkedInAuthUrl_def Let_def setItem_def)
  have "CHR ''&'' \<notin> set (generateRandomString 16 rnd)"
    using generateRandomString_alphabet [of 16 rnd] amp_notin_chars by blast
  then have q: "query_params (fst (getLinkedInAuthUrl rnd s)) =
     [(''response_type'', ''code''), (''client_id'', ''YOUR_LINKEDIN_CLIENT_ID''),
      (''redirect_uri'', encodeURIComponent ''http://localhost:4200/login''),
      (''state'', generateRandomString 16 rnd),
      (''scope'', ''r_liteprofile%20r_emailaddress'')]"
    unfolding url_shape encode_redirect by (rule query_of_url)
  have draws: "(\<forall>i<16. is_double (rnd i) \<and> 0 \<le> rnd i \<and> rnd i < 1) \<longrightarrow>
      generateRandomString 16 rnd =
        map (\<lambda>k. chars ! nat \<lfloor>round_double (rnd k * 62)\<rfloor>) [0..<16]"
    by (intro impI generateRandomString_map) blast
  have inj: "(\<forall>i<16. is_double (rnd i) \<and> 0 \<le> rnd i \<and> rnd i < 1) \<and>
    (\<forall>i<16. is_double (rnd' i) \<and> 0 \<le> rnd' i \<and> rnd' i < 1) \<longrightarrow>
      (generateRandomString 16 rnd = generateRandomString 16 rnd' \<longleftrightarrow>
         (\<forall>k<16. \<lfloor>round_double (rnd k * 62)\<rfloor> = \<lfloor>round_double (rnd' k * 62)\<rfloor>))"
    by (intro impI generateRandomString_inj) blast+
  from stored tr url_shape [of rnd s] q generateRandomString_eq [of 16 rnd] draws inj
  show ?thesis by blast
qed

text \<open>
  With every draw equal to \<open>1 / 2\<close> the index is 31 and the nonce is sixteen times
  \<^verbatim>\<open>f\<close>; with every draw equal to \<open>1 / 4\<close> the index is 15 and the nonce differs.
\<close>

theorem getLinkedInAuthUrl_nonce_and_query_witness:
  "fst (getLinkedInAuthUrl (\<lambda>i. 1 / 2) \<lparr>localStorage = Map.empty, userSubject = None, trace = []\<rparr>) =
     ''https://www.linkedin.com/oauth/v2/authorization?response_type=code&client_id=YOUR_LINKEDIN_CLIENT_ID&redirect_uri=http%3A%2F%2Flocalhost%3A4200%2Flogin&state=ffffffffffffffff&scope=r_liteprofile%20r_emailaddress'' \<and>
   getItem (snd (getLinkedInAuthUrl (\<lambda>i. 1 / 2) \<lparr>localStorage = Map.empty, userSubject = None, trace = []\<rparr>)) stateKey
     = Some ''ffffffffffffffff'' \<and>
   generateRandomString 16 (\<lambda>i. 1 / 2) \<noteq> generateRandomString 16 (\<lambda>i. 1 / 4)"
proof -
  note t = getLinkedInAuthUrl_nonce_and_query [of "\<lambda>i. 1 / 2"
      "\<lparr>localStorage = Map.empty, userSubject = None, trace = []\<rparr>" "\<lambda>i. 1 / 4"]
  have stored: "getItem (snd (getLinkedInAuthUrl (\<lambda>i. 1 / 2)
      \<lparr>localStorage = Map.empty, userSubject = None, trace = []\<rparr>)) stateKey
      = Some (generateRandomString 16 (\<lambda>i. 1 / 2))"
    using t by (rule conjunct1)
  have link: "fst (getLinkedInAuthUrl (\<lambda>i. 1 / 2)
      \<lparr>localStorage = Map.empty, userSubject = None, trace = []\<rparr>) =
     ''https://www.linkedin.com/oauth/v2/authorization?response_type=code&client_id=YOUR_LINKEDIN_CLIENT_ID&redirect_uri=http%3A%2F%2Flocalhost%3A4200%2Flogin&state=''
       @ generateRandomString 16 (\<lambda>i. 1 / 2) @ ''&scope=r_liteprofile%20r_emailaddress''"
    using t by (elim conjE)
  show ?thesis
    using stored link by (simp add: generateRandomString_half generateRandomString_quarter)
qed

text \<open>
  C10. Provided every result of \<^verbatim>\<open>Math.random()\<close> is a double from 0
  (included) to 1 (excluded), the nonce that \<^verbatim>\<open>getLinkedInAuthUrl\<close> stores has
  exactly 16 characters, each from the alphabet \<open>chars\<close>; the alphabet has 62
  distinct characters, all of them ASCII letters or digits, and percent-encoding
  leaves the nonce as it is. The index of each character is computed as the code
  does, from the rounded double product.
\<close>

theorem nonce_sixteen_alphanumerics:
  assumes "\<forall>i<16. is_double (rnd i) \<and> 0 \<le> rnd i \<and> rnd i < 1"
  shows "getItem (snd (getLinkedInAuthUrl rnd s)) stateKey = Some (generateRandomString 16 rnd) \<and>
     length (generateRandomString 16 rnd) = 16 \<and>
     set (generateRandomString 16 rnd) \<subseteq> set chars \<and>
     length chars = 62 \<and> distinct chars \<and>
     set chars \<subseteq> {c. (65 \<le> (of_char c :: nat) \<and> (of_char c :: nat) \<le> 90) \<or>
                       (97 \<le> (of_char c :: nat) \<and> (of_char c :: nat) \<le> 122) \<or>
                       (48 \<le> (of_char c :: nat) \<and> (of_char c :: nat) \<le> 57)} \<and>
     encodeURIComponent (generateRandomString 16 rnd) = generateRandomString 16 rnd"
proof -
  have stored: "getItem (snd (getLinkedInAuthUrl rnd s)) stateKey = Some (generateRandomString 16 rnd)"
    by (simp add: getLinkedInAuthUrl_def Let_def getItem_def setItem_def)
  have len: "length (generateRandomString 16 rnd) = 16"
    using assms by (intro generateRandomString_length) simp
  have sub: "set (generateRandomString 16 rnd) \<subseteq> set chars"
    by (rule generateRandomString_alphabet)
  have alnum: "set chars \<subseteq> {c. (65 \<le> (of_char c :: nat) \<and> (of_char c :: nat) \<le> 90) \<or>
                       (97 \<le> (of_char c :: nat) \<and> (of_char c :: nat) \<le> 122) \<or>
                       (48 \<le> (of_char c :: nat) \<and> (of_char c :: nat) \<le> 57)}"
    using chars_alnum by blast
  have enc: "encodeURIComponent (generateRandomString 16 rnd) = generateRandomString 16 rnd"
    using sub by (rule encodeURIComponent_unreserved)
  from stored len sub length_chars distinct_chars alnum enc show ?thesis by blast
qed

theorem nonce_sixteen_alphanumerics_witness:
  "is_double (1 / 2) \<and>
   length (generateRandomString 16 (\<lambda>i. 1 / 2)) = 16 \<and>
   set (generateRandomString 16 (\<lambda>i. 1 / 2)) \<subseteq> set chars \<and>
   generateRandomString 16 (\<lambda>i. 1 / 2) = ''ffffffffffffffff''"
  using nonce_sixteen_alphanumerics [of "\<lambda>i. 1 / 2" "\<lparr>localStorage = Map.empty, userSubject = None, trace = []\<rparr>"]
  by (simp add: generateRandomString_half is_double_half)

end
